theory Spec2Isabelle
  imports Complex_Main
begin

section \<open>Characters and strings\<close>

text \<open>
  A Python \<open>str\<close> is a sequence of code points. The model reads an Isabelle \<open>char\<close> as
  the code point of the same number, so texts range over U+0000..U+00FF, and \<open>length\<close>
  counts code points as \<open>len\<close> does. The character predicates below are those of CPython's
  Unicode database on that range.
\<close>

definition in_range :: "nat \<Rightarrow> nat \<Rightarrow> char \<Rightarrow> bool" where
  "in_range lo hi c = (lo \<le> of_char c \<and> (of_char c :: nat) \<le> hi)"

text \<open>\<open>str.isspace\<close> on one character, also the class \<open>\s\<close> of \<open>re\<close> on \<open>str\<close> patterns.\<close>

definition py_isspace :: "char \<Rightarrow> bool" where
  "py_isspace c = (in_range 9 13 c \<or> in_range 28 32 c \<or> in_range 133 133 c \<or> in_range 160 160 c)"

definition is_upper_char :: "char \<Rightarrow> bool" where
  "is_upper_char c = (in_range 65 90 c \<or> in_range 192 214 c \<or> in_range 216 222 c)"

definition is_lower_char :: "char \<Rightarrow> bool" where
  "is_lower_char c = (in_range 97 122 c \<or> in_range 170 170 c \<or> in_range 181 181 c
     \<or> in_range 186 186 c \<or> in_range 223 246 c \<or> in_range 248 255 c)"

definition lower_char :: "char \<Rightarrow> char" where
  "lower_char c = (if is_upper_char c then char_of (of_char c + (32::nat)) else c)"

text \<open>\<open>str.lower\<close>: on this range every upper-case letter has a one-character lower case.\<close>

definition py_lower :: "string \<Rightarrow> string" where
  "py_lower s = map lower_char s"

text \<open>\<open>str.isupper\<close>: no lower-case character and at least one upper-case character.\<close>

definition py_isupper :: "string \<Rightarrow> bool" where
  "py_isupper s = ((\<forall>c \<in> set s. \<not> is_lower_char c) \<and> (\<exists>c \<in> set s. is_upper_char c))"

definition py_lstrip :: "string \<Rightarrow> string" where
  "py_lstrip s = dropWhile py_isspace s"

definition py_rstrip :: "string \<Rightarrow> string" where
  "py_rstrip s = rev (dropWhile py_isspace (rev s))"

text \<open>\<open>str.strip()\<close> without arguments.\<close>

definition py_strip :: "string \<Rightarrow> string" where
  "py_strip s = py_rstrip (py_lstrip s)"

text \<open>\<open>s.startswith(p)\<close>.\<close>

fun startswith :: "string \<Rightarrow> string \<Rightarrow> bool" where
  "startswith s [] = True"
| "startswith [] (p # ps) = False"
| "startswith (c # cs) (p # ps) = (c = p \<and> startswith cs ps)"

text \<open>\<open>p in s\<close> on strings: \<open>p\<close> occurs in \<open>s\<close> as a contiguous substring.\<close>

fun py_in :: "string \<Rightarrow> string \<Rightarrow> bool" where
  "py_in p [] = (p = [])"
| "py_in p (c # cs) = (startswith (c # cs) p \<or> py_in p cs)"

section \<open>Numbers\<close>

text \<open>
  A Python \<open>float\<close> is modelled by the real number it denotes: no NaN, no infinity, and
  arithmetic without rounding error. \<open>round(x, 4)\<close> rounds half to even.
\<close>

definition round_half_even :: "real \<Rightarrow> int" where
  "round_half_even y =
     (let f = \<lfloor>y\<rfloor>; d = y - of_int f
      in if d < 1 / 2 then f else if 1 / 2 < d then f + 1 else if even f then f else f + 1)"

definition py_round4 :: "real \<Rightarrow> real" where
  "py_round4 x = of_int (round_half_even (x * 10000)) / 10000"

fun show_nat :: "nat \<Rightarrow> string" where
  "show_nat n = (if n < 10 then [char_of (48 + n)] else show_nat (n div 10) @ [char_of (48 + n mod 10)])"

text \<open>The format \<open>{x:.2f}\<close>.\<close>

definition fmt2 :: "real \<Rightarrow> string" where
  "fmt2 x =
     (let n = nat (round_half_even (\<bar>x\<bar> * 100))
      in (if x < 0 then ''-'' else '''') @ show_nat (n div 100) @ ''.''
         @ [char_of (48 + (n mod 100) div 10), char_of (48 + n mod 10)])"

section \<open>Regular expressions (the fragment of \<open>re\<close> the repository uses)\<close>

text \<open>
  Patterns are values of \<open>regex\<close>; \<open>rmatch\<close> is a backtracking matcher that lists, in the
  order \<open>re\<close> tries them, every state in which a pattern can end when started in a given
  state. A state is the text before the position (reversed), the text after it, and the
  groups captured so far (the latest first). \<open>re.match\<close>, \<open>re.search\<close>, \<open>re.findall\<close> and
  \<open>re.split\<close> take the first state of that list, as \<open>re\<close> takes the first match it finds.
\<close>

text \<open>The class \<open>\w\<close> on \<open>str\<close> patterns (alphanumeric or underscore) and \<open>\d\<close>.\<close>

definition is_word_char :: "char \<Rightarrow> bool" where
  "is_word_char c = (in_range 48 57 c \<or> in_range 65 90 c \<or> in_range 95 95 c \<or> in_range 97 122 c
     \<or> in_range 170 170 c \<or> in_range 178 179 c \<or> in_range 181 181 c \<or> in_range 185 186 c
     \<or> in_range 188 190 c \<or> in_range 192 214 c \<or> in_range 216 246 c \<or> in_range 248 255 c)"

definition is_digit_char :: "char \<Rightarrow> bool" where
  "is_digit_char c = in_range 48 57 c"

text \<open>
  The upper case of a character, used by case-insensitive ranges; \<open>None\<close> where it lies
  outside the character range of the model.
\<close>

definition upper_char :: "char \<Rightarrow> char option" where
  "upper_char c =
     (if in_range 97 122 c \<or> in_range 224 246 c \<or> in_range 248 254 c
      then Some (char_of (of_char c - (32::nat)))
      else if in_range 181 181 c \<or> in_range 255 255 c then None
      else Some c)"

datatype cset_item = CChar char | CRange char char | CSpace | CNonSpace | CDigit | CWord

datatype regex =
    Lit char
  | AnyChar
  | CSet "cset_item list"
  | Bol
  | Eol
  | WordB
  | Behind "cset_item list"
  | Eps
  | Seq regex regex
  | Alt regex regex
  | Rep nat "nat option" bool regex
  | Group nat regex

text \<open>
  \<open>Rep lo hi greedy r\<close> is \<open>r{lo,hi}\<close> (\<open>hi = None\<close>: unbounded), lazy when \<open>greedy\<close> is
  false; \<open>Behind items\<close> is the lookbehind \<open>(?<=[items])\<close>; \<open>Group n r\<close> is the n-th
  capturing group; \<open>Bol\<close>, \<open>Eol\<close>, \<open>WordB\<close> are \<open>^\<close>, \<open>$\<close>, \<open>\b\<close>.
\<close>

fun item_matches :: "cset_item \<Rightarrow> char \<Rightarrow> bool" where
  "item_matches (CChar a) c = (c = a)"
| "item_matches (CRange lo hi) c = ((of_char lo :: nat) \<le> of_char c \<and> (of_char c :: nat) \<le> of_char hi)"
| "item_matches CSpace c = py_isspace c"
| "item_matches CNonSpace c = (\<not> py_isspace c)"
| "item_matches CDigit c = is_digit_char c"
| "item_matches CWord c = is_word_char c"

fun item_matches_icase :: "cset_item \<Rightarrow> char \<Rightarrow> bool" where
  "item_matches_icase (CChar a) c = (lower_char c = lower_char a)"
| "item_matches_icase (CRange lo hi) c =
     (item_matches (CRange lo hi) (lower_char c)
      \<or> (case upper_char (lower_char c) of None \<Rightarrow> False | Some u \<Rightarrow> item_matches (CRange lo hi) u))"
| "item_matches_icase i c = item_matches i (lower_char c)"

definition set_matches :: "bool \<Rightarrow> cset_item list \<Rightarrow> char \<Rightarrow> bool" where
  "set_matches icase items c =
     list_ex (\<lambda>i. if icase then item_matches_icase i c else item_matches i c) items"

type_synonym mstate = "string \<times> string \<times> (nat \<times> string) list"

definition step_char :: "(char \<Rightarrow> bool) \<Rightarrow> mstate \<Rightarrow> mstate list" where
  "step_char p st =
     (case st of (b, a, g) \<Rightarrow>
        (case a of [] \<Rightarrow> [] | c # cs \<Rightarrow> if p c then [(c # b, cs, g)] else []))"

definition guard :: "bool \<Rightarrow> mstate \<Rightarrow> mstate list" where
  "guard ok st = (if ok then [st] else [])"

definition at_bol :: "bool \<Rightarrow> mstate \<Rightarrow> bool" where
  "at_bol multiline st =
     (case st of (b, a, g) \<Rightarrow> (case b of [] \<Rightarrow> True | p # _ \<Rightarrow> multiline \<and> p = CHR 0x0A))"

definition at_eol :: "bool \<Rightarrow> mstate \<Rightarrow> bool" where
  "at_eol multiline st =
     (case st of (b, a, g) \<Rightarrow>
        (case a of [] \<Rightarrow> True | c # cs \<Rightarrow> c = CHR 0x0A \<and> (multiline \<or> cs = [])))"

definition at_word_boundary :: "mstate \<Rightarrow> bool" where
  "at_word_boundary st =
     (case st of (b, a, g) \<Rightarrow>
        (case b of [] \<Rightarrow> False | p # _ \<Rightarrow> is_word_char p)
        \<noteq> (case a of [] \<Rightarrow> False | c # _ \<Rightarrow> is_word_char c))"

definition dec_bound :: "nat option \<Rightarrow> nat option" where
  "dec_bound hi = (case hi of None \<Rightarrow> None | Some n \<Rightarrow> Some (n - 1))"

definition remaining :: "mstate \<Rightarrow> nat" where
  "remaining st = length (fst (snd st))"

text \<open>
  Repetition: the first \<open>lo\<close> rounds are mandatory; a further round is tried only if it
  consumes text. The fuel bounds the number of rounds and is never exhausted when it
  starts at \<open>lo\<close> plus the length of the remaining text plus one, as \<open>rmatch\<close> calls it.
\<close>

primrec repeat :: "nat \<Rightarrow> (mstate \<Rightarrow> mstate list) \<Rightarrow> nat \<Rightarrow> nat option \<Rightarrow> bool \<Rightarrow> mstate \<Rightarrow> mstate list" where
  "repeat 0 f lo hi greedy st = []"
| "repeat (Suc fuel) f lo hi greedy st =
     (if 0 < lo then concat (map (repeat fuel f (lo - 1) (dec_bound hi) greedy) (f st))
      else
        let more = (if hi = Some 0 then []
                    else concat (map (\<lambda>st'. if remaining st' < remaining st
                                             then repeat fuel f 0 (dec_bound hi) greedy st'
                                             else []) (f st)))
        in if greedy then more @ [st] else st # more)"

definition set_group :: "nat \<Rightarrow> mstate \<Rightarrow> mstate \<Rightarrow> mstate" where
  "set_group n st st' =
     (case st' of (b', a', g') \<Rightarrow>
        (b', a', (n, rev (take (length b' - length (fst st)) b')) # g'))"

primrec rmatch :: "regex \<Rightarrow> bool \<Rightarrow> bool \<Rightarrow> mstate \<Rightarrow> mstate list" where
  "rmatch (Lit c) icase multiline st =
     step_char (\<lambda>x. if icase then lower_char x = lower_char c else x = c) st"
| "rmatch AnyChar icase multiline st = step_char (\<lambda>x. x \<noteq> CHR 0x0A) st"
| "rmatch (CSet items) icase multiline st = step_char (set_matches icase items) st"
| "rmatch Bol icase multiline st = guard (at_bol multiline st) st"
| "rmatch Eol icase multiline st = guard (at_eol multiline st) st"
| "rmatch WordB icase multiline st = guard (at_word_boundary st) st"
| "rmatch (Behind items) icase multiline st =
     guard (case fst st of [] \<Rightarrow> False | p # _ \<Rightarrow> set_matches icase items p) st"
| "rmatch Eps icase multiline st = [st]"
| "rmatch (Seq r1 r2) icase multiline st =
     concat (map (rmatch r2 icase multiline) (rmatch r1 icase multiline st))"
| "rmatch (Alt r1 r2) icase multiline st =
     rmatch r1 icase multiline st @ rmatch r2 icase multiline st"
| "rmatch (Rep lo hi greedy r) icase multiline st =
     repeat (Suc (lo + remaining st)) (rmatch r icase multiline) lo hi greedy st"
| "rmatch (Group n r) icase multiline st =
     map (set_group n st) (rmatch r icase multiline st)"

definition lits :: "string \<Rightarrow> regex" where
  "lits s = foldr (\<lambda>c r. Seq (Lit c) r) s Eps"

definition seqs :: "regex list \<Rightarrow> regex" where
  "seqs rs = foldr Seq rs Eps"

fun alts :: "regex list \<Rightarrow> regex" where
  "alts [] = Eps"
| "alts [r] = r"
| "alts (r # rs) = Alt r (alts rs)"

definition star :: "regex \<Rightarrow> regex" where
  "star r = Rep 0 None True r"

definition plus_r :: "regex \<Rightarrow> regex" where
  "plus_r r = Rep 1 None True r"

definition opt :: "regex \<Rightarrow> regex" where
  "opt r = Rep 0 (Some 1) True r"

definition lazy_star :: "regex \<Rightarrow> regex" where
  "lazy_star r = Rep 0 None False r"

text \<open>
  A match object: the text before the start of the match (reversed) and the final state.
\<close>

type_synonym re_match = "string \<times> mstate"

fun search_from :: "regex \<Rightarrow> bool \<Rightarrow> bool \<Rightarrow> string \<Rightarrow> string \<Rightarrow> re_match option" where
  "search_from r icase multiline b [] =
     (case rmatch r icase multiline (b, [], []) of [] \<Rightarrow> None | st # _ \<Rightarrow> Some (b, st))"
| "search_from r icase multiline b (c # cs) =
     (case rmatch r icase multiline (b, c # cs, []) of
        [] \<Rightarrow> search_from r icase multiline (c # b) cs
      | st # _ \<Rightarrow> Some (b, st))"

definition re_search :: "regex \<Rightarrow> string \<Rightarrow> bool \<Rightarrow> bool \<Rightarrow> re_match option" where
  "re_search r text icase multiline = search_from r icase multiline [] text"

definition re_match :: "regex \<Rightarrow> string \<Rightarrow> bool \<Rightarrow> bool \<Rightarrow> re_match option" where
  "re_match r text icase multiline =
     (case rmatch r icase multiline ([], text, []) of [] \<Rightarrow> None | st # _ \<Rightarrow> Some ([], st))"

definition group0 :: "re_match \<Rightarrow> string" where
  "group0 m = (case m of (b, (b', a', g')) \<Rightarrow> rev (take (length b' - length b) b'))"

definition group :: "re_match \<Rightarrow> nat \<Rightarrow> string option" where
  "group m n = (case m of (b, (b', a', g')) \<Rightarrow> map_of g' n)"

text \<open>
  \<open>re.finditer\<close>: successive non-overlapping matches, left to right. \<open>skip\<close> counts the
  characters of the last match still to be passed before the next search starts.
\<close>

fun finditer_from :: "regex \<Rightarrow> bool \<Rightarrow> bool \<Rightarrow> string \<Rightarrow> string \<Rightarrow> nat \<Rightarrow> re_match list" where
  "finditer_from r icase multiline b [] skip =
     (if 0 < skip then []
      else case rmatch r icase multiline (b, [], []) of [] \<Rightarrow> [] | st # _ \<Rightarrow> [(b, st)])"
| "finditer_from r icase multiline b (c # cs) skip =
     (if 0 < skip then finditer_from r icase multiline (c # b) cs (skip - 1)
      else case rmatch r icase multiline (b, c # cs, []) of
          [] \<Rightarrow> finditer_from r icase multiline (c # b) cs 0
        | st # _ \<Rightarrow> (b, st) # finditer_from r icase multiline (c # b) cs (length (fst st) - length b - 1))"

definition re_finditer :: "regex \<Rightarrow> string \<Rightarrow> bool \<Rightarrow> bool \<Rightarrow> re_match list" where
  "re_finditer r text icase multiline = finditer_from r icase multiline [] text 0"

definition re_findall :: "regex \<Rightarrow> string \<Rightarrow> bool \<Rightarrow> bool \<Rightarrow> string list" where
  "re_findall r text icase multiline = map group0 (re_finditer r text icase multiline)"

text \<open>\<open>re.findall\<close> for a pattern with one group: the group's text, empty if it did not take part.\<close>

definition re_findall1 :: "regex \<Rightarrow> string \<Rightarrow> bool \<Rightarrow> bool \<Rightarrow> string list" where
  "re_findall1 r text icase multiline =
     map (\<lambda>m. case group m 1 of None \<Rightarrow> [] | Some s \<Rightarrow> s) (re_finditer r text icase multiline)"

fun pieces :: "string \<Rightarrow> nat \<Rightarrow> (nat \<times> nat) list \<Rightarrow> string list" where
  "pieces s pos [] = [drop pos s]"
| "pieces s pos ((i, j) # ms) = take (i - pos) (drop pos s) # pieces s j ms"

text \<open>\<open>re.split\<close> for a pattern without groups: the texts between the matches.\<close>

definition re_split :: "regex \<Rightarrow> string \<Rightarrow> string list" where
  "re_split r s =
     pieces s 0 (map (\<lambda>m. (length (fst m), length (fst (snd m)))) (re_finditer r s False False))"

fun has_group :: "nat \<Rightarrow> regex \<Rightarrow> bool" where
  "has_group n (Seq r1 r2) = (has_group n r1 \<or> has_group n r2)"
| "has_group n (Alt r1 r2) = (has_group n r1 \<or> has_group n r2)"
| "has_group n (Rep lo hi greedy r) = has_group n r"
| "has_group n (Group k r) = (k = n \<or> has_group n r)"
| "has_group n r = False"

datatype py_error = ValueError | AttributeError | IndexError

text \<open>
  \<open>match.group(n)\<close> followed by a string method: \<open>IndexError\<close> if the pattern has no such
  group, \<open>AttributeError\<close> (on \<open>None\<close>) if the group did not take part in the match.
\<close>

definition group_str :: "regex \<Rightarrow> re_match \<Rightarrow> nat \<Rightarrow> py_error + string" where
  "group_str r m n =
     (case group m n of
        Some s \<Rightarrow> Inr s
      | None \<Rightarrow> if has_group n r then Inl AttributeError else Inl IndexError)"

section \<open>More string operations\<close>

text \<open>\<open>sep.join(xs)\<close>.\<close>

fun py_join :: "string \<Rightarrow> string list \<Rightarrow> string" where
  "py_join sep [] = []"
| "py_join sep [x] = x"
| "py_join sep (x # y # ys) = x @ sep @ py_join sep (y # ys)"

text \<open>\<open>s.split(c)\<close> for a one-character separator.\<close>

fun split_on :: "char \<Rightarrow> string \<Rightarrow> string list" where
  "split_on c [] = [[]]"
| "split_on c (x # xs) =
     (if x = c then [] # split_on c xs
      else case split_on c xs of [] \<Rightarrow> [[x]] | w # ws \<Rightarrow> (x # w) # ws)"

fun split_ws_from :: "string \<Rightarrow> string \<Rightarrow> string list" where
  "split_ws_from cur [] = (if cur = [] then [] else [rev cur])"
| "split_ws_from cur (c # cs) =
     (if py_isspace c then (if cur = [] then split_ws_from [] cs else rev cur # split_ws_from [] cs)
      else split_ws_from (c # cur) cs)"

text \<open>\<open>s.split()\<close> without arguments: the maximal runs of non-space characters.\<close>

definition py_split_ws :: "string \<Rightarrow> string list" where
  "py_split_ws s = split_ws_from [] s"

section \<open>Confidence scoring (guardrails.py)\<close>

text \<open>\<open>compute_retrieval_confidence\<close>; \<open>sum(xs) / len(xs)\<close> is reached with \<open>xs\<close> non-empty only.\<close>

definition compute_retrieval_confidence :: "real list \<Rightarrow> real" where
  "compute_retrieval_confidence similarity_scores =
     (if similarity_scores = [] then 0
      else
        let top_score = hd similarity_scores;
            mean_score = sum_list similarity_scores / real (length similarity_scores);
            top_signal = min 1 (max 0 top_score);
            gap_signal = (if length similarity_scores > 1
                          then min 1 ((similarity_scores ! 0 - similarity_scores ! 1) * 5)
                          else 1 / 2);
            mean_signal = min 1 (max 0 mean_score);
            confidence = 1 / 2 * top_signal + 2 / 10 * gap_signal + 3 / 10 * mean_signal
        in py_round4 (min 1 (max 0 confidence)))"

section \<open>Guardrails (guardrails.py)\<close>

definition HALLUCINATION_PHRASES :: "string list" where
  "HALLUCINATION_PHRASES =
     [''as an ai'',
      ''i don'' @ [CHR 0x27] @ ''t have access'',
      ''i cannot determine'',
      ''based on my training'',
      ''as a language model'',
      ''i'' @ [CHR 0x27] @ ''m not sure'',
      ''general knowledge'',
      ''typically in logistics'',
      ''usually'',
      ''in my experience'',
      ''commonly'']"

text \<open>
  The fixed texts of the source start with the sign U+26A0 U+FE0F and use the dash U+2014,
  which lie outside the character range of the model; they are written \<open>(!)\<close> and \<open>--\<close>.
\<close>

definition low_confidence_answer :: string where
  "low_confidence_answer =
     ''(!) Not found in document -- The system could not find a confident answer ''
     @ ''to this question in the uploaded document. The information may not be present, ''
     @ ''or the question may need to be rephrased.''"

definition low_similarity_answer :: string where
  "low_similarity_answer =
     ''(!) Not found in document -- No relevant content was found that matches ''
     @ ''your question. The information may not be present in this document.''"

definition caution_marker :: string where
  "caution_marker =
     ''(!) The answer may not be fully grounded in the document. Please verify: ''"

definition short_answer_answer :: string where
  "short_answer_answer = ''(!) Not found in document -- Could not generate a meaningful answer.''"

definition low_confidence_message :: "real \<Rightarrow> real \<Rightarrow> string" where
  "low_confidence_message confidence threshold =
     ''Confidence score ('' @ fmt2 confidence @ '') is below the threshold ('' @ fmt2 threshold
     @ ''). The answer may not be reliably grounded in the document.''"

definition low_similarity_message :: "real \<Rightarrow> string" where
  "low_similarity_message top_score =
     ''Top retrieval similarity ('' @ fmt2 top_score
     @ '') is very low. No relevant content was found in the document.''"

definition hallucination_message :: "string \<Rightarrow> string" where
  "hallucination_message phrase =
     ''Potential hallucination detected: answer contains phrase '' @ [CHR 0x27] @ phrase
     @ [CHR 0x27] @ ''. The response may not be grounded in the document.''"

definition short_answer_message :: string where
  "short_answer_message =
     ''Answer is too short or empty -- likely no relevant information found.''"

text \<open>The loop \<open>for phrase in HALLUCINATION_PHRASES\<close>: the first phrase found in the answer.\<close>

fun first_phrase :: "string list \<Rightarrow> string \<Rightarrow> string option" where
  "first_phrase [] answer_lower = None"
| "first_phrase (phrase # rest) answer_lower =
     (if py_in phrase answer_lower then Some phrase else first_phrase rest answer_lower)"

text \<open>\<open>check_guardrails\<close> returns (triggered, guardrail message, final answer).\<close>

definition check_guardrails ::
  "string \<Rightarrow> real \<Rightarrow> real list \<Rightarrow> real \<Rightarrow> bool \<times> string option \<times> string" where
  "check_guardrails answer confidence similarity_scores threshold =
     (if confidence < threshold
      then (True, Some (low_confidence_message confidence threshold), low_confidence_answer)
      else if similarity_scores \<noteq> [] \<and> hd similarity_scores < 25 / 100
      then (True, Some (low_similarity_message (hd similarity_scores)), low_similarity_answer)
      else case first_phrase HALLUCINATION_PHRASES (py_lower answer) of
          Some phrase \<Rightarrow> (True, Some (hallucination_message phrase), caution_marker @ answer)
        | None \<Rightarrow>
            if length (py_strip answer) < 10
            then (True, Some short_answer_message, short_answer_answer)
            else (False, None, answer))"

section \<open>Answer coverage, chunk agreement, composite confidence (guardrails.py)\<close>

definition stopwords :: "string list" where
  "stopwords =
     [''the'', ''and'', ''for'', ''are'', ''but'', ''not'', ''you'', ''all'', ''can'', ''had'',
      ''her'', ''was'', ''one'', ''our'', ''out'', ''has'', ''have'', ''been'', ''from'',
      ''they'', ''this'', ''that'', ''with'', ''will'', ''would'', ''there'', ''their'',
      ''what'', ''about'', ''which'', ''when'', ''make'', ''than'', ''them'', ''some'',
      ''time'', ''very'', ''your'', ''just'', ''know'', ''take'', ''come'', ''could'',
      ''into'', ''year'', ''also'', ''back'', ''after'', ''only'', ''most'', ''other'',
      ''over'', ''such'', ''does'', ''should'', ''being'', ''found'', ''based'',
      ''document'', ''information'', ''please'', ''note'', ''mentioned'', ''according'']"

text \<open>The pattern \<open>\b[a-z]{4,}\b\<close>.\<close>

definition word_re :: regex where
  "word_re = seqs [WordB, Rep 4 None True (CSet [CRange CHR ''a'' CHR ''z'']), WordB]"

text \<open>\<open>sig_words\<close> of \<open>compute_answer_coverage\<close>: the significant words of the answer.\<close>

definition sig_words :: "string \<Rightarrow> string list" where
  "sig_words answer =
     filter (\<lambda>w. w \<notin> set stopwords) (re_findall word_re (py_lower answer) False False)"

definition compute_answer_coverage :: "string \<Rightarrow> string list \<Rightarrow> real" where
  "compute_answer_coverage answer source_texts =
     (if answer = [] \<or> source_texts = [] then 0
      else
        let combined_sources = py_lower (py_join '' '' source_texts)
        in if sig_words answer = [] then 1 / 2
           else
             let covered = length (filter (\<lambda>w. py_in w combined_sources) (sig_words answer));
                 coverage = real covered / real (length (sig_words answer))
             in py_round4 coverage)"

text \<open>A retrieved chunk, the dictionary \<open>{text, chunk_index, similarity_score}\<close>.\<close>

record chunk =
  chunk_text :: string
  chunk_index :: nat
  similarity_score :: real



section \<open>The junk judge and the label scanner (extractor.py)\<close>

definition skip_words :: "string list" where
  "skip_words =
     [''information'', ''details'', ''section'', ''data'', ''summary'',
      ''n/a'', ''na'', ''none'', ''null'', ''tbd'', ''---'', ''==='']"

definition header_keywords :: "string list" where
  "header_keywords =
     [''carrier'', ''mc'', ''phone'', ''equipment'', ''agreed'', ''amount'',
      ''size'', ''feet'', ''column'', ''field'', ''value'', ''type'', ''name'',
      ''address'', ''city'', ''state'', ''zip'', ''contact'', ''email'', ''fax'']"

text \<open>The pattern \<open>^[\s\-]+$\<close>.\<close>

definition dash_only_re :: regex where
  "dash_only_re = seqs [Bol, plus_r (CSet [CSpace, CChar CHR ''-'']), Eol]"

text \<open>
  The table-header test of \<open>_is_junk_value\<close>: \<open>words\<close> is the set of the words of the
  lower-cased value, \<open>header_overlap\<close> the number of them that are header keywords.
\<close>

definition header_overlap :: "string \<Rightarrow> nat" where
  "header_overlap val_lower =
     length (filter (\<lambda>w. w \<in> set header_keywords) (remdups (py_split_ws val_lower)))"

definition looks_like_table_header :: "string \<Rightarrow> bool" where
  "looks_like_table_header val_lower =
     (3 \<le> header_overlap val_lower \<and> 4 \<le> length (remdups (py_split_ws val_lower)))"

definition is_junk_value :: "string \<Rightarrow> bool" where
  "is_junk_value val =
     (if val = [] \<or> length (py_strip val) < 2 then True
      else
        let val_lower = py_strip (py_lower val)
        in if val_lower \<in> set skip_words then True
           else if startswith val ''---'' \<or> startswith val ''==='' then True
           else if re_match dash_only_re val False False \<noteq> None then True
           else if looks_like_table_header val_lower then True
           else if CHR ''|'' \<in> set val \<and> 2 \<le> count_list val CHR ''|'' then True
           else False)"

text \<open>
  \<open>_find_value_after_label\<close>: the patterns are searched case-insensitively, in order.
  \<open>Inl\<close> is the exception raised by \<open>match.group(1).strip()\<close> when the first group of a
  matching pattern is missing.
\<close>

fun find_value_after_label :: "string \<Rightarrow> regex list \<Rightarrow> bool \<Rightarrow> py_error + string option" where
  "find_value_after_label text [] multiline = Inr None"
| "find_value_after_label text (pattern # label_patterns) multiline =
     (case re_search pattern text True multiline of
        None \<Rightarrow> find_value_after_label text label_patterns multiline
      | Some m \<Rightarrow>
          (case group_str pattern m 1 of
             Inl e \<Rightarrow> Inl e
           | Inr g \<Rightarrow>
               let val = py_strip g
               in if is_junk_value val then find_value_after_label text label_patterns multiline
                  else Inr (Some (take 150 val))))"

section \<open>The segmenter (document_processor.py)\<close>

text \<open>A pattern \<open>(?i)^(word\s+(?:a|b|c))\<close> of \<open>SECTION_PATTERNS\<close>.\<close>

definition header_re :: "string \<Rightarrow> string list \<Rightarrow> regex" where
  "header_re w rest = Seq Bol (Group 1 (seqs [lits w, plus_r (CSet [CSpace]), alts (map lits rest)]))"

text \<open>A pattern \<open>(?i)^(a|b|c)\<close>.\<close>

definition start_re :: "string list \<Rightarrow> regex" where
  "start_re ws = Seq Bol (Group 1 (alts (map lits ws)))"

definition SECTION_PATTERNS :: "regex list" where
  "SECTION_PATTERNS =
     [header_re ''shipment'' [''details'', ''information'', ''summary''],
      header_re ''shipper'' [''information'', ''details'', ''name''],
      header_re ''consignee'' [''information'', ''details'', ''name''],
      header_re ''carrier'' [''information'', ''details'', ''name''],
      header_re ''rate'' [''confirmation'', ''details'', ''summary''],
      header_re ''pickup'' [''details'', ''information'', ''date'', ''time''],
      header_re ''delivery'' [''details'', ''information'', ''date'', ''time''],
      Seq Bol (Group 1 (seqs [lits ''bill'', plus_r (CSet [CSpace]), lits ''of'',
                              plus_r (CSet [CSpace]), lits ''lading''])),
      header_re ''freight'' [''charges'', ''details'', ''bill''],
      header_re ''special'' [''instructions'', ''notes'', ''requirements''],
      header_re ''equipment'' [''type'', ''details'', ''requirements''],
      Seq Bol (Group 1 (seqs [lits ''terms'', plus_r (CSet [CSpace]), lits ''and'',
                              plus_r (CSet [CSpace]), lits ''conditions''])),
      header_re ''payment'' [''terms'', ''details''],
      start_re [''insurance'', ''claims'', ''liability''],
      Seq (start_re [''commodity'', ''cargo'', ''goods'']) (CSet [CSpace]),
      Seq (start_re [''origin'', ''destination'']) (CSet [CSpace]),
      Seq (start_re [''weight'', ''dimensions'']) (CSet [CSpace]),
      seqs [Bol, Rep 1 (Some 3) True (Lit CHR ''#''), CSet [CSpace]]]"

text \<open>\<open>_is_section_boundary\<close>; every pattern carries the flag \<open>(?i)\<close>.\<close>

definition is_section_boundary :: "string \<Rightarrow> bool" where
  "is_section_boundary line =
     (let line_stripped = py_strip line
      in if line_stripped = [] then False
         else if list_ex (\<lambda>pattern. re_match pattern line_stripped True False \<noteq> None) SECTION_PATTERNS
         then True
         else if py_isupper line_stripped \<and> 3 < length line_stripped \<and> length line_stripped < 80
         then True
         else False)"

text \<open>
  Step 1 of \<open>intelligent_chunk\<close>, the loop over the lines; \<open>current_section\<close> is the list
  of the lines of the section being collected.
\<close>

fun split_sections :: "string list \<Rightarrow> string list \<Rightarrow> string list" where
  "split_sections [] current_section =
     (if current_section \<noteq> [] then [py_join [CHR 0x0A] current_section] else [])"
| "split_sections (line # lines) current_section =
     (if is_section_boundary line \<and> current_section \<noteq> []
      then py_join [CHR 0x0A] current_section # split_sections lines [line]
      else split_sections lines (current_section @ [line]))"

text \<open>
  \<open>range(0, n, step)\<close>: \<open>ValueError\<close> for a zero step, empty for a negative one.
\<close>

definition py_range0 :: "nat \<Rightarrow> int \<Rightarrow> py_error + nat list" where
  "py_range0 n step =
     (if step = 0 then Inl ValueError
      else if step < 0 then Inr []
      else Inr (map (\<lambda>k. k * nat step) [0 ..< (n + nat step - 1) div nat step]))"

text \<open>\<open>s[i:j]\<close>: a negative bound counts from the end, and both bounds are clipped.\<close>

definition py_slice :: "string \<Rightarrow> int \<Rightarrow> int \<Rightarrow> string" where
  "py_slice s i j =
     (let n = int (length s);
          a = (if i < 0 then max 0 (i + n) else min i n);
          b = (if j < 0 then max 0 (j + n) else min j n)
      in take (nat (b - a)) (drop (nat a) s))"

text \<open>The windows \<open>sentence[i:i + chunk_size]\<close> of the character-level split.\<close>

definition windows :: "string \<Rightarrow> int \<Rightarrow> int \<Rightarrow> py_error + string list" where
  "windows sentence chunk_size chunk_overlap =
     (case py_range0 (length sentence) (chunk_size - chunk_overlap) of
        Inl e \<Rightarrow> Inl e
      | Inr starts \<Rightarrow> Inr (map (\<lambda>i. py_slice sentence (int i) (int i + chunk_size)) starts))"

text \<open>The chunks that the character-level split appends: the trimmed, non-empty windows.\<close>

definition hard_split :: "string \<Rightarrow> int \<Rightarrow> int \<Rightarrow> py_error + string list" where
  "hard_split sentence chunk_size chunk_overlap =
     (case windows sentence chunk_size chunk_overlap of
        Inl e \<Rightarrow> Inl e
      | Inr subs \<Rightarrow> Inr (filter (\<lambda>c. c \<noteq> []) (map py_strip subs)))"

text \<open>
  One round of the loop over the sentences of a long section; the state is the list
  \<open>chunks\<close> and the packing buffer \<open>current_chunk\<close>.
\<close>

definition pack_sentence ::
  "int \<Rightarrow> int \<Rightarrow> string list \<times> string \<Rightarrow> string \<Rightarrow> py_error + string list \<times> string" where
  "pack_sentence chunk_size chunk_overlap st sentence =
     (case st of (chunks, current_chunk) \<Rightarrow>
        if int (length current_chunk) + int (length sentence) + 1 \<le> chunk_size
        then Inr (chunks, current_chunk @ (if current_chunk \<noteq> [] then '' '' else '''') @ sentence)
        else
          let chunks1 = (if current_chunk \<noteq> [] then chunks @ [py_strip current_chunk] else chunks)
          in if chunk_size < int (length sentence)
             then (case hard_split sentence chunk_size chunk_overlap of
                     Inl e \<Rightarrow> Inl e
                   | Inr subs \<Rightarrow> Inr (chunks1 @ subs, []))
             else Inr (chunks1, sentence))"

fun pack_sentences ::
  "int \<Rightarrow> int \<Rightarrow> string list \<times> string \<Rightarrow> string list \<Rightarrow> py_error + string list \<times> string" where
  "pack_sentences chunk_size chunk_overlap st [] = Inr st"
| "pack_sentences chunk_size chunk_overlap st (sentence # sentences) =
     (case pack_sentence chunk_size chunk_overlap st sentence of
        Inl e \<Rightarrow> Inl e
      | Inr st' \<Rightarrow> pack_sentences chunk_size chunk_overlap st' sentences)"

text \<open>The pattern \<open>(?<=[.!?])\s+\<close>.\<close>

definition sentence_re :: regex where
  "sentence_re =
     Seq (Behind [CChar CHR ''.'', CChar CHR ''!'', CChar CHR ''?'']) (plus_r (CSet [CSpace]))"

text \<open>The body of the loop over the sections (step 2): the new value of \<open>chunks\<close>.\<close>

definition chunk_section :: "int \<Rightarrow> int \<Rightarrow> string list \<Rightarrow> string \<Rightarrow> py_error + string list" where
  "chunk_section chunk_size chunk_overlap chunks section0 =
     (let section = py_strip section0
      in if section = [] then Inr chunks
         else if int (length section) \<le> chunk_size then Inr (chunks @ [section])
         else
           (case pack_sentences chunk_size chunk_overlap (chunks, []) (re_split sentence_re section) of
              Inl e \<Rightarrow> Inl e
            | Inr (chunks', current_chunk) \<Rightarrow>
                if py_strip current_chunk \<noteq> [] then Inr (chunks' @ [py_strip current_chunk])
                else Inr chunks'))"

fun chunk_sections :: "int \<Rightarrow> int \<Rightarrow> string list \<Rightarrow> string list \<Rightarrow> py_error + string list" where
  "chunk_sections chunk_size chunk_overlap chunks [] = Inr chunks"
| "chunk_sections chunk_size chunk_overlap chunks (section # sections) =
     (case chunk_section chunk_size chunk_overlap chunks section of
        Inl e \<Rightarrow> Inl e
      | Inr chunks' \<Rightarrow> chunk_sections chunk_size chunk_overlap chunks' sections)"

text \<open>\<open>intelligent_chunk\<close>; \<open>Inl\<close> is an exception that leaves the function.\<close>

definition intelligent_chunk :: "string \<Rightarrow> int \<Rightarrow> int \<Rightarrow> py_error + string list" where
  "intelligent_chunk text0 chunk_size chunk_overlap =
     (if py_strip text0 = [] then Inr []
      else
        let lines = split_on (CHR 0x0A) text0;
            sections = split_sections lines []
        in case chunk_sections chunk_size chunk_overlap [] sections of
             Inl e \<Rightarrow> Inl e
           | Inr chunks \<Rightarrow> Inr (filter (\<lambda>c. 20 \<le> length c) chunks))"

text \<open>
  The indices that \<open>process_and_store\<close> attaches to the chunks:
  \<open>{"chunk_index": i, ...} for i in range(len(chunks))\<close>, stored beside \<open>documents=chunks\<close>.
\<close>

definition chunk_indices :: "string list \<Rightarrow> nat list" where
  "chunk_indices chunks = [0 ..< length chunks]"

definition indexed_chunks :: "string list \<Rightarrow> (nat \<times> string) list" where
  "indexed_chunks chunks = zip (chunk_indices chunks) chunks"

section \<open>Label patterns (extractor.py)\<close>

text \<open>
  The value a label pattern offers on a text: the trimmed first group of its first match.
\<close>

definition label_value :: "string \<Rightarrow> bool \<Rightarrow> regex \<Rightarrow> string option" where
  "label_value text0 multiline pattern =
     (case re_search pattern text0 True multiline of
        None \<Rightarrow> None
      | Some m \<Rightarrow> map_option py_strip (group m 1))"

text \<open>A pattern that matches the text with a value that is not junk.\<close>

definition plausible :: "string \<Rightarrow> bool \<Rightarrow> regex \<Rightarrow> bool" where
  "plausible text0 multiline pattern =
     (case label_value text0 multiline pattern of None \<Rightarrow> False | Some v \<Rightarrow> \<not> is_junk_value v)"

text \<open>Every match of the pattern on the text has its first group.\<close>

definition captures_first_group :: "string \<Rightarrow> bool \<Rightarrow> regex \<Rightarrow> bool" where
  "captures_first_group text0 multiline pattern =
     (case re_search pattern text0 True multiline of None \<Rightarrow> True | Some m \<Rightarrow> group m 1 \<noteq> None)"

text \<open>The patterns \<open>shipper\s*(?:name)?\s*:\s*(.+?)(?:\n|$)\<close> and
  \<open>ship\s+from\s*:\s*(.+?)(?:\n|$)\<close> of \<open>shipper_patterns\<close>.\<close>

definition shipper_name_re :: regex where
  "shipper_name_re =
     seqs [lits ''shipper'', star (CSet [CSpace]), opt (lits ''name''), star (CSet [CSpace]),
           Lit CHR '':'', star (CSet [CSpace]), Group 1 (Rep 1 None False AnyChar),
           Alt (Lit (CHR 0x0A)) Eol]"

definition ship_from_re :: regex where
  "ship_from_re =
     seqs [lits ''ship'', plus_r (CSet [CSpace]), lits ''from'', star (CSet [CSpace]),
           Lit CHR '':'', star (CSet [CSpace]), Group 1 (Rep 1 None False AnyChar),
           Alt (Lit (CHR 0x0A)) Eol]"

section \<open>Auxiliary notions of the proofs\<close>

definition stripped :: "string \<Rightarrow> bool" where
  "stripped s = (s = [] \<or> (\<not> py_isspace (hd s) \<and> \<not> py_isspace (last s)))"

definition overlap_exactly :: "nat \<Rightarrow> string \<Rightarrow> string \<Rightarrow> bool" where
  "overlap_exactly k w1 w2 = (k \<le> length w1 \<and> k \<le> length w2 \<and> drop (length w1 - k) w1 = take k w2)"

section \<open>Properties of the confidence scorer\<close>

text \<open>
  C10: \<open>compute_retrieval_confidence\<close> applied to the empty list of similarity scores returns
  exactly 0.0, not the neutral 0.5 used for other unmeasurable signals.
\<close>

theorem retrieval_confidence_empty:
  "compute_retrieval_confidence [] = 0 \<and> compute_retrieval_confidence [] \<noteq> 1 / 2"
  by (simp add: compute_retrieval_confidence_def)




text \<open>
  C8: the junk judge returns true for "N/A", "---" and
  "Carrier MC Phone Equipment Amount" and false for "FastFreight LLC". The third string is
  caught by the table-header rule, with five header keywords among five distinct words,
  and by no earlier rule.
\<close>

theorem is_junk_test_vectors:
  "is_junk_value ''N/A'' \<and> is_junk_value ''---''
   \<and> is_junk_value ''Carrier MC Phone Equipment Amount''
   \<and> py_strip (py_lower ''Carrier MC Phone Equipment Amount'') \<notin> set skip_words
   \<and> re_match dash_only_re ''Carrier MC Phone Equipment Amount'' False False = None
   \<and> looks_like_table_header (py_strip (py_lower ''Carrier MC Phone Equipment Amount''))
   \<and> header_overlap (py_strip (py_lower ''Carrier MC Phone Equipment Amount'')) = 5
   \<and> length (remdups (py_split_ws (py_strip (py_lower ''Carrier MC Phone Equipment Amount'')))) = 5
   \<and> \<not> is_junk_value ''FastFreight LLC''"
  by code_simp

section \<open>Properties of the guardrails\<close>

lemma first_phrase_None: "first_phrase ps a = None \<longleftrightarrow> (\<forall>p \<in> set ps. \<not> py_in p a)"
  by (induction ps) auto

lemma first_phrase_Some:
  "first_phrase ps a = Some p \<Longrightarrow> p \<in> set ps \<and> py_in p a"
  by (induction ps) (auto split: if_splits)

text \<open>
  C2: \<open>check_guardrails\<close> applies its rules in a fixed order and the first applicable one
  decides: (1) confidence below the threshold, (2) a best similarity score present and
  below 0.25, (3) a hallucination phrase in the lower-cased answer, where the answer is
  kept behind the caution marker, (4) trimmed answer shorter than 10 characters; when no
  rule applies the result is (False, None, answer). With confidence 0.2 and threshold 0.45
  rule 1 decides for every answer and every list of scores.
\<close>

theorem guardrail_rule_order:
  "(confidence < threshold \<longrightarrow>
      fst (check_guardrails answer confidence similarity_scores threshold)
      \<and> snd (snd (check_guardrails answer confidence similarity_scores threshold)) = low_confidence_answer)
   \<and> (\<not> confidence < threshold \<and> similarity_scores \<noteq> [] \<and> hd similarity_scores < 25 / 100 \<longrightarrow>
      fst (check_guardrails answer confidence similarity_scores threshold)
      \<and> snd (snd (check_guardrails answer confidence similarity_scores threshold)) = low_similarity_answer)
   \<and> (\<not> confidence < threshold \<and> \<not> (similarity_scores \<noteq> [] \<and> hd similarity_scores < 25 / 100)
       \<and> (\<exists>phrase \<in> set HALLUCINATION_PHRASES. py_in phrase (py_lower answer)) \<longrightarrow>
      fst (check_guardrails answer confidence similarity_scores threshold)
      \<and> snd (snd (check_guardrails answer confidence similarity_scores threshold)) = caution_marker @ answer)
   \<and> (\<not> confidence < threshold \<and> \<not> (similarity_scores \<noteq> [] \<and> hd similarity_scores < 25 / 100)
       \<and> \<not> (\<exists>phrase \<in> set HALLUCINATION_PHRASES. py_in phrase (py_lower answer))
       \<and> length (py_strip answer) < 10 \<longrightarrow>
      fst (check_guardrails answer confidence similarity_scores threshold)
      \<and> snd (snd (check_guardrails answer confidence similarity_scores threshold)) = short_answer_answer)
   \<and> (\<not> confidence < threshold \<and> \<not> (similarity_scores \<noteq> [] \<and> hd similarity_scores < 25 / 100)
       \<and> \<not> (\<exists>phrase \<in> set HALLUCINATION_PHRASES. py_in phrase (py_lower answer))
       \<and> \<not> length (py_strip answer) < 10 \<longrightarrow>
      check_guardrails answer confidence similarity_scores threshold = (False, None, answer))
   \<and> check_guardrails answer (2 / 10) similarity_scores (45 / 100)
       = (True, Some (low_confidence_message (2 / 10) (45 / 100)), low_confidence_answer)"
proof -
  let ?fp = "first_phrase HALLUCINATION_PHRASES (py_lower answer)"
  have a: "(\<exists>phrase \<in> set HALLUCINATION_PHRASES. py_in phrase (py_lower answer)) \<longleftrightarrow> ?fp \<noteq> None"
    by (simp add: first_phrase_None)
  show ?thesis
    unfolding a by (cases ?fp) (simp_all add: check_guardrails_def)
qed

text \<open>
  C3 as stated fails: the answer "ok" has no significant word, and with the empty list of
  source texts the coverage is 0.0, the value of the guard
  \<open>if not answer or not source_texts\<close>, not 0.5.
\<close>

theorem coverage_no_sig_words_counterexample:
  "sig_words ''ok'' = [] \<and> compute_answer_coverage ''ok'' [] = 0
   \<and> compute_answer_coverage ''ok'' [] \<noteq> 1 / 2"
proof -
  have "sig_words ''ok'' = []" by code_simp
  then show ?thesis by (simp add: compute_answer_coverage_def)
qed

text \<open>
  C3, as amended: \<open>compute_answer_coverage\<close> returns 0.0 when the answer is empty or the
  list of source texts is empty; for a non-empty answer without significant words and a
  non-empty list of source texts it returns the neutral value 0.5.
\<close>

theorem coverage_neutral_without_sig_words:
  "(answer = [] \<or> source_texts = [] \<longrightarrow> compute_answer_coverage answer source_texts = 0)
   \<and> (answer \<noteq> [] \<and> source_texts \<noteq> [] \<and> sig_words answer = [] \<longrightarrow>
        compute_answer_coverage answer source_texts = 1 / 2)"
  by (simp add: compute_answer_coverage_def)

theorem coverage_neutral_without_sig_words_witness:
  "sig_words ''ok'' = []
   \<and> compute_answer_coverage ''ok'' [''x''] = 1 / 2
   \<and> compute_answer_coverage [] [''x''] = 0
   \<and> compute_answer_coverage ''ok'' [] = 0
   \<and> compute_answer_coverage ''The carrier is FastFreight'' [] = 0"
proof -
  have s: "sig_words ''ok'' = []" by code_simp
  have n1: "''ok'' \<noteq> []" and n2: "[''x''] \<noteq> []" by simp_all
  have 1: "compute_answer_coverage ''ok'' [''x''] = 1 / 2"
    using coverage_neutral_without_sig_words [of "''ok''" "[''x'']"] s n1 n2 by blast
  have 2: "compute_answer_coverage [] [''x''] = 0"
    using coverage_neutral_without_sig_words [of "[]" "[''x'']"] by blast
  have 3: "compute_answer_coverage ''ok'' [] = 0"
    using coverage_neutral_without_sig_words [of "''ok''" "[]"] by blast
  have 4: "compute_answer_coverage ''The carrier is FastFreight'' [] = 0"
    using coverage_neutral_without_sig_words [of "''The carrier is FastFreight''" "[]"] by blast
  from s 1 2 3 4 show ?thesis by blast
qed

theorem guardrail_rule_order_witness:
  "check_guardrails ''The rate is 2500 USD.'' (2 / 10) [9 / 10] (45 / 100)
     = (True, Some (low_confidence_message (2 / 10) (45 / 100)), low_confidence_answer)
   \<and> fst (check_guardrails ''The rate is 2500 USD.'' (9 / 10) [1 / 10] (45 / 100))
   \<and> snd (snd (check_guardrails ''The rate is 2500 USD.'' (9 / 10) [1 / 10] (45 / 100))) = low_similarity_answer
   \<and> fst (check_guardrails ''As an AI, I cannot determine this.'' (9 / 10) [1 / 2] (45 / 100))
   \<and> snd (snd (check_guardrails ''As an AI, I cannot determine this.'' (9 / 10) [1 / 2] (45 / 100)))
       = caution_marker @ ''As an AI, I cannot determine this.''
   \<and> fst (check_guardrails ''ok'' (9 / 10) [1 / 2] (45 / 100))
   \<and> snd (snd (check_guardrails ''ok'' (9 / 10) [1 / 2] (45 / 100))) = short_answer_answer
   \<and> check_guardrails ''The rate is 2500 USD.'' (9 / 10) [1 / 2] (45 / 100)
       = (False, None, ''The rate is 2500 USD.'')"
proof -
  have h3: "\<exists>phrase \<in> set HALLUCINATION_PHRASES. py_in phrase (py_lower ''As an AI, I cannot determine this.'')"
    by code_simp
  have n4: "\<not> (\<exists>phrase \<in> set HALLUCINATION_PHRASES. py_in phrase (py_lower ''ok''))"
    by code_simp
  have n5: "\<not> (\<exists>phrase \<in> set HALLUCINATION_PHRASES. py_in phrase (py_lower ''The rate is 2500 USD.''))"
    by code_simp
  have l4: "length (py_strip ''ok'') < 10" by code_simp
  have l5: "\<not> length (py_strip ''The rate is 2500 USD.'') < 10" by code_simp
  have c: "\<not> (9 / 10 :: real) < 45 / 100" by simp
  have s2: "[1 / 10 :: real] \<noteq> [] \<and> hd [1 / 10 :: real] < 25 / 100" by simp
  have s: "\<not> ([1 / 2 :: real] \<noteq> [] \<and> hd [1 / 2 :: real] < 25 / 100)" by simp
  have 1: "check_guardrails ''The rate is 2500 USD.'' (2 / 10) [9 / 10] (45 / 100)
     = (True, Some (low_confidence_message (2 / 10) (45 / 100)), low_confidence_answer)"
    using guardrail_rule_order [where answer = "''The rate is 2500 USD.''" and similarity_scores = "[9 / 10]"]
    by blast
  have 2: "fst (check_guardrails ''The rate is 2500 USD.'' (9 / 10) [1 / 10] (45 / 100))
   \<and> snd (snd (check_guardrails ''The rate is 2500 USD.'' (9 / 10) [1 / 10] (45 / 100))) = low_similarity_answer"
    using guardrail_rule_order [where answer = "''The rate is 2500 USD.''" and similarity_scores = "[1 / 10]"
        and confidence = "9 / 10" and threshold = "45 / 100"] c s2
    by blast
  have 3: "fst (check_guardrails ''As an AI, I cannot determine this.'' (9 / 10) [1 / 2] (45 / 100))
   \<and> snd (snd (check_guardrails ''As an AI, I cannot determine this.'' (9 / 10) [1 / 2] (45 / 100)))
       = caution_marker @ ''As an AI, I cannot determine this.''"
    using guardrail_rule_order [where answer = "''As an AI, I cannot determine this.''" and similarity_scores = "[1 / 2]"
        and confidence = "9 / 10" and threshold = "45 / 100"] c s h3
    by blast
  have 4: "fst (check_guardrails ''ok'' (9 / 10) [1 / 2] (45 / 100))
   \<and> snd (snd (check_guardrails ''ok'' (9 / 10) [1 / 2] (45 / 100))) = short_answer_answer"
    using guardrail_rule_order [where answer = "''ok''" and similarity_scores = "[1 / 2]"
        and confidence = "9 / 10" and threshold = "45 / 100"] c s n4 l4
    by blast
  have 5: "check_guardrails ''The rate is 2500 USD.'' (9 / 10) [1 / 2] (45 / 100)
       = (False, None, ''The rate is 2500 USD.'')"
    using guardrail_rule_order [where answer = "''The rate is 2500 USD.''" and similarity_scores = "[1 / 2]"
        and confidence = "9 / 10" and threshold = "45 / 100"] c s n5 l5
    by blast
  from 1 2 3 4 5 show ?thesis by blast
qed

section \<open>Properties of the segmenter\<close>

lemma lstrip_hd: "py_lstrip s \<noteq> [] \<Longrightarrow> \<not> py_isspace (hd (py_lstrip s))"
  unfolding py_lstrip_def using hd_dropWhile by blast

lemma rstrip_last: "py_rstrip s \<noteq> [] \<Longrightarrow> \<not> py_isspace (last (py_rstrip s))"
proof -
  assume a: "py_rstrip s \<noteq> []"
  then have "dropWhile py_isspace (rev s) \<noteq> []" by (simp add: py_rstrip_def)
  then have "\<not> py_isspace (hd (dropWhile py_isspace (rev s)))" using hd_dropWhile by blast
  then show ?thesis using a by (simp add: py_rstrip_def last_rev)
qed

lemma rstrip_hd: "py_rstrip s \<noteq> [] \<Longrightarrow> \<not> py_isspace (hd s) \<Longrightarrow> hd (py_rstrip s) = hd s"
proof (induction s rule: rev_induct)
  case Nil
  then show ?case by (simp add: py_rstrip_def)
next
  case (snoc x xs)
  show ?case
  proof (cases "py_isspace x")
    case True
    then have e: "py_rstrip (xs @ [x]) = py_rstrip xs" by (simp add: py_rstrip_def)
    with snoc.prems(1) have ne: "xs \<noteq> []" by (auto simp: py_rstrip_def)
    with snoc e show ?thesis by simp
  next
    case False
    then show ?thesis by (simp add: py_rstrip_def)
  qed
qed

lemma strip_stripped: "stripped (py_strip s)"
proof (cases "py_strip s = []")
  case True
  then show ?thesis by (simp add: stripped_def)
next
  case False
  then have ne: "py_lstrip s \<noteq> []" by (auto simp: py_strip_def py_rstrip_def)
  have h: "\<not> py_isspace (hd (py_lstrip s))" using lstrip_hd [OF ne] .
  have "hd (py_strip s) = hd (py_lstrip s)"
    unfolding py_strip_def using rstrip_hd False h by (simp add: py_strip_def)
  moreover have "\<not> py_isspace (last (py_strip s))"
    unfolding py_strip_def using rstrip_last False by (simp add: py_strip_def)
  ultimately show ?thesis using h by (simp add: stripped_def)
qed

lemma stripped_strip: "stripped s \<Longrightarrow> py_strip s = s"
proof (cases "s = []")
  case True
  then show ?thesis by (simp add: py_strip_def py_lstrip_def py_rstrip_def)
next
  case False
  assume "stripped s"
  with False have h: "\<not> py_isspace (hd s)" and l: "\<not> py_isspace (last s)"
    by (auto simp: stripped_def)
  from False h have a: "py_lstrip s = s" by (cases s) (auto simp: py_lstrip_def)
  from False l have "dropWhile py_isspace (rev s) = rev s"
    by (cases "rev s") (auto simp: last_rev)
  then show ?thesis by (simp add: py_strip_def a py_rstrip_def)
qed

lemma strip_idem: "py_strip (py_strip s) = py_strip s"
  by (rule stripped_strip) (rule strip_stripped)

lemma hard_split_stripped:
  "hard_split sentence cs co = Inr subs \<Longrightarrow> c \<in> set subs \<Longrightarrow> stripped c"
  by (auto simp: hard_split_def strip_stripped split: sum.splits)

lemma pack_sentence_stripped:
  assumes "pack_sentence cs co st sentence = Inr st'" and "\<forall>c \<in> set (fst st). stripped c"
  shows "\<forall>c \<in> set (fst st'). stripped c"
  using assms
  by (cases st) (auto simp: pack_sentence_def Let_def strip_stripped
      split: if_splits sum.splits dest: hard_split_stripped)

lemma pack_sentences_stripped:
  "pack_sentences cs co st sentences = Inr st' \<Longrightarrow> \<forall>c \<in> set (fst st). stripped c
   \<Longrightarrow> \<forall>c \<in> set (fst st'). stripped c"
proof (induction sentences arbitrary: st)
  case Nil
  then show ?case by simp
next
  case (Cons s ss)
  from Cons.prems(1) obtain st1 where p: "pack_sentence cs co st s = Inr st1"
    and r: "pack_sentences cs co st1 ss = Inr st'"
    by (auto split: sum.splits)
  from pack_sentence_stripped [OF p Cons.prems(2)] Cons.IH [OF r] show ?case by blast
qed

lemma chunk_section_stripped:
  assumes "chunk_section cs co chunks section = Inr chunks'" and "\<forall>c \<in> set chunks. stripped c"
  shows "\<forall>c \<in> set chunks'. stripped c"
proof -
  let ?s = "py_strip section"
  show ?thesis
  proof (cases "?s = [] \<or> int (length ?s) \<le> cs")
    case True
    with assms show ?thesis
      by (auto simp: chunk_section_def Let_def strip_stripped split: if_splits)
  next
    case False
    with assms(1) obtain ch cur where
      p: "pack_sentences cs co (chunks, []) (re_split sentence_re ?s) = Inr (ch, cur)"
      and c: "chunks' = (if py_strip cur \<noteq> [] then ch @ [py_strip cur] else ch)"
      by (auto simp: chunk_section_def Let_def split: if_splits sum.splits)
    from pack_sentences_stripped [OF p] assms(2) have "\<forall>c \<in> set ch. stripped c" by simp
    with c show ?thesis by (auto simp: strip_stripped)
  qed
qed

lemma chunk_sections_stripped:
  "chunk_sections cs co chunks sections = Inr chunks' \<Longrightarrow> \<forall>c \<in> set chunks. stripped c
   \<Longrightarrow> \<forall>c \<in> set chunks'. stripped c"
proof (induction sections arbitrary: chunks)
  case Nil
  then show ?case by simp
next
  case (Cons s ss)
  from Cons.prems(1) obtain c1 where p: "chunk_section cs co chunks s = Inr c1"
    and r: "chunk_sections cs co c1 ss = Inr chunks'"
    by (auto split: sum.splits)
  from chunk_section_stripped [OF p Cons.prems(2)] Cons.IH [OF r] show ?case by blast
qed

lemma intelligent_chunk_stripped:
  assumes "intelligent_chunk text0 cs co = Inr chunks" and "c \<in> set chunks"
  shows "stripped c \<and> 20 \<le> length c"
proof (cases "py_strip text0 = []")
  case True
  with assms show ?thesis by (simp add: intelligent_chunk_def)
next
  case False
  with assms(1) obtain ch where
    p: "chunk_sections cs co [] (split_sections (split_on (CHR 0x0A) text0) []) = Inr ch"
    and c: "chunks = filter (\<lambda>c. 20 \<le> length c) ch"
    by (auto simp: intelligent_chunk_def Let_def split: sum.splits)
  from chunk_sections_stripped [OF p] have "\<forall>c \<in> set ch. stripped c" by simp
  with c assms(2) show ?thesis by auto
qed

text \<open>
  C1: for every text and every chunk size and overlap, every chunk that \<open>intelligent_chunk\<close>
  returns has trimmed length at least 20, and the indices attached to the returned chunks
  are 0, 1, 2, ... in order, each beside its chunk.
\<close>

theorem chunks_min_length_and_indices:
  assumes "intelligent_chunk text0 chunk_size chunk_overlap = Inr chunks"
  shows "(\<forall>c \<in> set chunks. 20 \<le> length (py_strip c))
    \<and> map fst (indexed_chunks chunks) = [0 ..< length chunks]
    \<and> map snd (indexed_chunks chunks) = chunks"
proof -
  have "20 \<le> length (py_strip c)" if "c \<in> set chunks" for c
    using intelligent_chunk_stripped [OF assms that] by (simp add: stripped_strip)
  then show ?thesis by (simp add: indexed_chunks_def chunk_indices_def)
qed

theorem chunks_min_length_and_indices_witness:
  "intelligent_chunk ''Rate Confirmation for load 42'' 512 64 = Inr [''Rate Confirmation for load 42'']
   \<and> 20 \<le> length (py_strip ''Rate Confirmation for load 42'')
   \<and> map fst (indexed_chunks [''Rate Confirmation for load 42'']) = [0 ..< 1]
   \<and> map snd (indexed_chunks [''Rate Confirmation for load 42'']) = [''Rate Confirmation for load 42'']"
proof -
  have e: "intelligent_chunk ''Rate Confirmation for load 42'' 512 64 = Inr [''Rate Confirmation for load 42'']"
    by code_simp
  from chunks_min_length_and_indices [OF e] e show ?thesis by simp
qed

lemma windows_total: "cs \<noteq> co \<Longrightarrow> \<exists>ws. windows s cs co = Inr ws"
  by (simp add: windows_def py_range0_def)

lemma hard_split_total: "cs \<noteq> co \<Longrightarrow> \<exists>subs. hard_split s cs co = Inr subs"
  using windows_total [of cs co s] by (auto simp: hard_split_def)

lemma pack_sentence_total: "cs \<noteq> co \<Longrightarrow> \<exists>st'. pack_sentence cs co st s = Inr st'"
  using hard_split_total [of cs co s]
  by (cases st) (auto simp: pack_sentence_def Let_def)

lemma pack_sentences_total: "cs \<noteq> co \<Longrightarrow> \<exists>st'. pack_sentences cs co st ss = Inr st'"
proof (induction ss arbitrary: st)
  case Nil
  then show ?case by simp
next
  case (Cons s ss)
  from pack_sentence_total [OF Cons.prems] obtain st1 where "pack_sentence cs co st s = Inr st1"
    by blast
  with Cons.IH [OF Cons.prems, of st1] show ?case by simp
qed

lemma chunk_section_total: "cs \<noteq> co \<Longrightarrow> \<exists>chunks'. chunk_section cs co chunks s = Inr chunks'"
proof -
  assume a: "cs \<noteq> co"
  from pack_sentences_total [OF a] obtain ch cur where
    "pack_sentences cs co (chunks, []) (re_split sentence_re (py_strip s)) = Inr (ch, cur)"
    by (metis surj_pair)
  then show ?thesis by (simp add: chunk_section_def Let_def)
qed

lemma chunk_sections_total: "cs \<noteq> co \<Longrightarrow> \<exists>chunks'. chunk_sections cs co chunks ss = Inr chunks'"
proof (induction ss arbitrary: chunks)
  case Nil
  then show ?case by simp
next
  case (Cons s ss)
  from chunk_section_total [OF Cons.prems] obtain c1 where "chunk_section cs co chunks s = Inr c1"
    by blast
  with Cons.IH [OF Cons.prems, of c1] show ?case by simp
qed

text \<open>
  C9, as amended: \<open>intelligent_chunk\<close> returns the empty list for a blank text, whatever the
  chunk size and overlap; and it returns a list, raising nothing, for every text when the
  chunk size differs from the overlap.
\<close>

theorem segmenter_blank_and_total:
  "(py_strip text0 = [] \<longrightarrow> intelligent_chunk text0 chunk_size chunk_overlap = Inr [])
   \<and> (chunk_size \<noteq> chunk_overlap \<longrightarrow>
        (\<exists>chunks. intelligent_chunk text0 chunk_size chunk_overlap = Inr chunks))"
proof -
  have "\<exists>chunks. intelligent_chunk text0 chunk_size chunk_overlap = Inr chunks"
    if a: "chunk_size \<noteq> chunk_overlap"
  proof -
    from chunk_sections_total [OF a] obtain ch where
      "chunk_sections chunk_size chunk_overlap [] (split_sections (split_on (CHR 0x0A) text0) []) = Inr ch"
      by blast
    then show ?thesis by (simp add: intelligent_chunk_def Let_def)
  qed
  then show ?thesis by (simp add: intelligent_chunk_def)
qed

text \<open>
  C9 as stated fails: with chunk size 5 and overlap 5 the step of
  \<open>range(0, len(sentence), chunk_size - chunk_overlap)\<close> is zero, and the text "abcdefghij",
  one sentence longer than the chunk size, raises \<open>ValueError\<close>.
\<close>

theorem segmenter_total_counterexample:
  "intelligent_chunk ''abcdefghij'' 5 5 = Inl ValueError"
  by code_simp

theorem segmenter_blank_and_total_witness:
  "py_strip ''  '' = [] \<and> intelligent_chunk ''  '' 512 64 = Inr []
   \<and> (512::int) \<noteq> 64 \<and> (\<exists>chunks. intelligent_chunk ''abcdefghij'' 512 64 = Inr chunks)"
proof -
  have b: "py_strip ''  '' = []" by code_simp
  have n: "(512::int) \<noteq> 64" by simp
  from segmenter_blank_and_total [of "''  ''" 512 64] b
  have 1: "intelligent_chunk ''  '' 512 64 = Inr []" by simp
  from segmenter_blank_and_total [of "''abcdefghij''" 512 64] n
  have 2: "\<exists>chunks. intelligent_chunk ''abcdefghij'' 512 64 = Inr chunks" by simp
  from b 1 n 2 show ?thesis by simp
qed

lemma py_slice_window:
  assumes "0 < csize" and "i < length s"
  shows "py_slice s (int i) (int i + csize) = take (nat csize) (drop i s)"
proof -
  have "take (nat (min (int i + csize) (int (length s)) - int i)) (drop i s) = take (nat csize) (drop i s)"
  proof (cases "int i + csize \<le> int (length s)")
    case True
    then show ?thesis by (simp add: min_def)
  next
    case False
    then have "length (drop i s) \<le> nat csize" by simp
    moreover from False have "min (int i + csize) (int (length s)) = int (length s)" by simp
    ultimately show ?thesis using assms by (simp add: nat_diff_distrib')
  qed
  then show ?thesis using assms by (simp add: py_slice_def Let_def min_def)
qed

lemma windows_eq:
  assumes "0 \<le> ov" and "ov < csize"
  shows "windows s csize ov
    = Inr (map (\<lambda>k. take (nat csize) (drop (k * nat (csize - ov)) s))
             [0 ..< (length s + nat (csize - ov) - 1) div nat (csize - ov)])"
proof -
  let ?st = "nat (csize - ov)"
  let ?m = "(length s + ?st - 1) div ?st"
  have st: "0 < ?st" using assms by simp
  have lt: "k * ?st < length s" if "k < ?m" for k
  proof -
    from that have "Suc k \<le> ?m" by simp
    then have "Suc k * ?st \<le> ?m * ?st" by (rule mult_le_mono1)
    also have "\<dots> \<le> length s + ?st - 1" by (simp add: div_times_less_eq_dividend)
    finally show ?thesis using st by simp
  qed
  have pw: "py_slice s (int (k * ?st)) (int (k * ?st) + csize) = take (nat csize) (drop (k * ?st) s)"
    if "k < ?m" for k
    by (rule py_slice_window) (use assms lt that in auto)
  have "map (\<lambda>i. py_slice s (int i) (int i + csize)) (map (\<lambda>k. k * ?st) [0 ..< ?m])
      = map (\<lambda>k. take (nat csize) (drop (k * ?st) s)) [0 ..< ?m]"
    unfolding map_map comp_def by (rule map_cong [OF refl]) (use pw in simp)
  then show ?thesis using assms by (simp add: windows_def py_range0_def)
qed

text \<open>
  C4, as amended: for 0 \<le> overlap < chunk size, a sentence longer than the chunk size is
  sliced into the windows \<open>sentence[k * step : k * step + chunk_size]\<close>, with
  \<open>step = chunk_size - overlap\<close>, one for every \<open>k\<close> with \<open>k * step < len(sentence)\<close>. A
  window that ends inside the sentence has length \<open>chunk_size\<close>, and its last \<open>overlap\<close>
  characters are the first \<open>overlap\<close> characters of the next window. The windows are
  trimmed, the non-empty ones are appended as chunks of their own, after the flushed
  buffer, and the packing buffer is reset to empty.
\<close>

theorem hard_split_windows:
  assumes "0 \<le> ov" and "ov < csize" and "csize < int (length sentence)"
  shows "\<exists>ws. windows sentence csize ov = Inr ws
    \<and> length ws = (length sentence + nat (csize - ov) - 1) div nat (csize - ov)
    \<and> (\<forall>k < length ws. ws ! k = take (nat csize) (drop (k * nat (csize - ov)) sentence))
    \<and> (\<forall>k. k * nat (csize - ov) + nat csize \<le> length sentence \<longrightarrow>
          k < length ws \<and> length (ws ! k) = nat csize
          \<and> (Suc k < length ws \<longrightarrow> overlap_exactly (nat ov) (ws ! k) (ws ! Suc k)))
    \<and> hard_split sentence csize ov = Inr (filter (\<lambda>c. c \<noteq> []) (map py_strip ws))
    \<and> pack_sentence csize ov (chunks, current_chunk) sentence
        = Inr ((if current_chunk \<noteq> [] then chunks @ [py_strip current_chunk] else chunks)
               @ filter (\<lambda>c. c \<noteq> []) (map py_strip ws), [])"
proof -
  let ?st = "nat (csize - ov)"
  let ?m = "(length sentence + ?st - 1) div ?st"
  let ?w = "\<lambda>k. take (nat csize) (drop (k * ?st) sentence)"
  let ?ws = "map ?w [0 ..< ?m]"
  have st: "0 < ?st" using assms by simp
  have szq: "nat csize = ?st + nat ov" using assms by simp
  have w: "windows sentence csize ov = Inr ?ws" by (rule windows_eq [OF assms(1,2)])
  have idx: "k < ?m \<longleftrightarrow> k * ?st < length sentence" for k
  proof
    assume "k < ?m"
    then have "Suc k \<le> ?m" by simp
    then have "Suc k * ?st \<le> ?m * ?st" by (rule mult_le_mono1)
    also have "\<dots> \<le> length sentence + ?st - 1" by (simp add: div_times_less_eq_dividend)
    finally show "k * ?st < length sentence" using st by simp
  next
    assume "k * ?st < length sentence"
    then have "k * ?st + ?st \<le> length sentence + ?st - 1" using st by simp
    then have "(k * ?st + ?st) div ?st \<le> ?m" by (rule div_le_mono)
    then show "k < ?m" using st by simp
  qed
  have nth: "?ws ! k = ?w k" if "k < ?m" for k
    using that by simp
  have len: "length ?ws = ?m" by simp
  have full: "k < length ?ws \<and> length (?ws ! k) = nat csize
      \<and> (Suc k < length ?ws \<longrightarrow> overlap_exactly (nat ov) (?ws ! k) (?ws ! Suc k))"
    if f: "k * ?st + nat csize \<le> length sentence" for k
  proof -
    from f assms have "k * ?st < length sentence" by linarith
    then have k: "k < ?m" unfolding idx .
    have lw: "length (?w k) = nat csize" using f by simp
    have ov: "overlap_exactly (nat ov) (?w k) (?w (Suc k))"
    proof -
      have "nat ov + Suc k * ?st \<le> length sentence" using f szq by simp
      then have l1: "nat ov \<le> length sentence - Suc k * ?st" by (rule add_le_imp_le_diff)
      have l2: "nat ov \<le> nat csize" using szq by simp
      have "nat ov \<le> min (length sentence - Suc k * ?st) (nat csize)"
        using l1 l2 by (rule min.boundedI)
      then have a: "nat ov \<le> length (?w (Suc k))"
        by (simp only: length_take length_drop)
      have "drop ?st (?w k) = take (nat ov) (drop (Suc k * ?st) sentence)"
        by (simp add: drop_take szq add.commute)
      also have "\<dots> = take (nat ov) (?w (Suc k))" using szq by simp
      finally have d: "drop ?st (?w k) = take (nat ov) (?w (Suc k))" .
      have e: "length (?w k) - nat ov = ?st" unfolding lw using szq by simp
      have b: "nat ov \<le> length (?w k)" unfolding lw using szq by simp
      show ?thesis unfolding overlap_exactly_def e using a b d by blast
    qed
    have "overlap_exactly (nat ov) (?ws ! k) (?ws ! Suc k)" if n: "Suc k < length ?ws"
    proof -
      from n have "Suc k < ?m" unfolding len .
      then show ?thesis unfolding nth [OF k] nth [OF \<open>Suc k < ?m\<close>] using ov by simp
    qed
    moreover have "length (?ws ! k) = nat csize" unfolding nth [OF k] by (rule lw)
    moreover have "k < length ?ws" unfolding len by (rule k)
    ultimately show ?thesis by blast
  qed
  have h: "hard_split sentence csize ov = Inr (filter (\<lambda>c. c \<noteq> []) (map py_strip ?ws))"
    by (simp add: hard_split_def w)
  have p: "pack_sentence csize ov (chunks, current_chunk) sentence
        = Inr ((if current_chunk \<noteq> [] then chunks @ [py_strip current_chunk] else chunks)
               @ filter (\<lambda>c. c \<noteq> []) (map py_strip ?ws), [])"
    using assms(3) by (simp add: pack_sentence_def h Let_def)
  have all: "\<forall>k < length ?ws. ?ws ! k = ?w k"
    unfolding len using nth by blast
  show ?thesis
    apply (rule exI [of _ ?ws])
    apply (intro conjI)
         apply (rule w)
        apply (rule len)
       apply (rule all)
      apply (intro allI impI)
      apply (erule full)
     apply (rule h)
    apply (rule p)
    done
qed

theorem hard_split_windows_witness:
  "(0::int) \<le> 1 \<and> (1::int) < 4 \<and> (4::int) < int (length ''abcdefghij'')
   \<and> windows ''abcdefghij'' 4 1 = Inr [''abcd'', ''defg'', ''ghij'', ''j'']
   \<and> length ''abcd'' = nat 4
   \<and> overlap_exactly (nat 1) ''abcd'' ''defg''
   \<and> hard_split ''abcdefghij'' 4 1 = Inr [''abcd'', ''defg'', ''ghij'', ''j'']
   \<and> pack_sentence 4 1 ([''Load 7.''], ''to'') ''abcdefghij''
       = Inr ([''Load 7.'', ''to'', ''abcd'', ''defg'', ''ghij'', ''j''], [])"
proof -
  have h1: "(0::int) \<le> 1" and h2: "(1::int) < 4" and h3: "(4::int) < int (length ''abcdefghij'')"
    by simp_all
  have w: "windows ''abcdefghij'' 4 1 = Inr [''abcd'', ''defg'', ''ghij'', ''j'']"
    by code_simp
  have t: "filter (\<lambda>c. c \<noteq> []) (map py_strip [''abcd'', ''defg'', ''ghij'', ''j''])
      = [''abcd'', ''defg'', ''ghij'', ''j'']"
    by code_simp
  have c: "py_strip ''to'' = ''to''" by code_simp
  from hard_split_windows [OF h1 h2 h3, where chunks = "[''Load 7.'']" and current_chunk = "''to''"]
  obtain ws where ws: "windows ''abcdefghij'' 4 1 = Inr ws"
    and full: "\<forall>k. k * nat (4 - 1) + nat 4 \<le> length ''abcdefghij'' \<longrightarrow>
          k < length ws \<and> length (ws ! k) = nat 4
          \<and> (Suc k < length ws \<longrightarrow> overlap_exactly (nat 1) (ws ! k) (ws ! Suc k))"
    and hs: "hard_split ''abcdefghij'' 4 1 = Inr (filter (\<lambda>c. c \<noteq> []) (map py_strip ws))"
    and ps: "pack_sentence 4 1 ([''Load 7.''], ''to'') ''abcdefghij''
        = Inr ((if ''to'' \<noteq> [] then [''Load 7.''] @ [py_strip ''to''] else [''Load 7.''])
               @ filter (\<lambda>c. c \<noteq> []) (map py_strip ws), [])"
    by blast
  from ws w have e: "ws = [''abcd'', ''defg'', ''ghij'', ''j'']" by simp
  have "0 * nat (4 - 1) + nat 4 \<le> length ''abcdefghij''" by simp
  with full have "length (ws ! 0) = nat 4
      \<and> (Suc 0 < length ws \<longrightarrow> overlap_exactly (nat 1) (ws ! 0) (ws ! Suc 0))"
    by blast
  then have o: "length ''abcd'' = nat 4 \<and> overlap_exactly (nat 1) ''abcd'' ''defg''"
    unfolding e by simp
  from hs have hs': "hard_split ''abcdefghij'' 4 1 = Inr [''abcd'', ''defg'', ''ghij'', ''j'']"
    unfolding e t .
  from ps have ps': "pack_sentence 4 1 ([''Load 7.''], ''to'') ''abcdefghij''
       = Inr ([''Load 7.'', ''to'', ''abcd'', ''defg'', ''ghij'', ''j''], [])"
    unfolding e t c by simp
  from h1 h2 h3 w o hs' ps' show ?thesis by blast
qed

text \<open>
  C4 as stated fails: with chunk size 6 and overlap 5 the sentence "abcdefghij" gives ten
  windows; the last five are shorter than 6, and the sixth and seventh, not the last pair,
  share four characters, not five.
\<close>

theorem hard_split_overlap_counterexample:
  "hard_split ''abcdefghij'' 6 5
     = Inr [''abcdef'', ''bcdefg'', ''cdefgh'', ''defghi'', ''efghij'', ''fghij'', ''ghij'', ''hij'', ''ij'', ''j'']
   \<and> length ''fghij'' \<noteq> 6 \<and> \<not> overlap_exactly 5 ''fghij'' ''ghij''"
  by code_simp

section \<open>Properties of the label scanner\<close>

lemma find_value_after_label_general:
  "find_value_after_label text0 label_patterns multiline
    = (case find (\<lambda>p. plausible text0 multiline p \<or> \<not> captures_first_group text0 multiline p)
             label_patterns of
         None \<Rightarrow> Inr None
       | Some p \<Rightarrow>
           (case label_value text0 multiline p of
              Some v \<Rightarrow> Inr (Some (take 150 v))
            | None \<Rightarrow> Inl (if has_group 1 p then AttributeError else IndexError)))"
proof (induction label_patterns)
  case Nil
  then show ?case by simp
next
  case (Cons p ps)
  show ?case
  proof (cases "re_search p text0 True multiline")
    case None
    with Cons.IH show ?thesis
      by (simp add: plausible_def captures_first_group_def label_value_def)
  next
    case (Some m)
    show ?thesis
    proof (cases "group m 1")
      case None
      with Some show ?thesis
        by (simp add: plausible_def captures_first_group_def label_value_def group_str_def)
    next
      case (Some g)
      with \<open>re_search p text0 True multiline = Some m\<close> Cons.IH show ?thesis
        by (simp add: plausible_def captures_first_group_def label_value_def group_str_def Let_def)
    qed
  qed
qed

lemma find_value_skip:
  "\<not> plausible text0 multiline p \<Longrightarrow> captures_first_group text0 multiline p
   \<Longrightarrow> find_value_after_label text0 (p # ps) multiline = find_value_after_label text0 ps multiline"
  by (auto simp: plausible_def captures_first_group_def label_value_def group_str_def Let_def
      split: option.splits)

lemma find_value_hit:
  "plausible text0 multiline p
   \<Longrightarrow> find_value_after_label text0 (p # ps) multiline
       = Inr (map_option (take 150) (label_value text0 multiline p))"
  by (auto simp: plausible_def label_value_def group_str_def Let_def split: option.splits)

text \<open>
  C5: for every text and every list of label patterns whose first group takes part in every
  match, \<open>_find_value_after_label\<close> returns the first group, trimmed and cut to 150
  characters, of the earliest pattern that matches the text and whose trimmed group is not
  junk; a pattern whose value is junk counts as no match; the result is absent when no
  pattern gives a value that is not junk.
\<close>

theorem find_value_after_label_first_plausible:
  assumes "\<forall>p \<in> set label_patterns. captures_first_group text0 multiline p"
  shows "find_value_after_label text0 label_patterns multiline
    = Inr (case find (plausible text0 multiline) label_patterns of
             None \<Rightarrow> None
           | Some p \<Rightarrow> map_option (take 150) (label_value text0 multiline p))"
  using assms
proof (induction label_patterns)
  case Nil
  then show ?case by simp
next
  case (Cons p ps)
  show ?case
  proof (cases "plausible text0 multiline p")
    case True
    then show ?thesis by (simp add: find_value_hit del: find_value_after_label.simps)
  next
    case False
    from Cons.prems have c: "captures_first_group text0 multiline p"
      and r: "\<forall>q \<in> set ps. captures_first_group text0 multiline q" by simp_all
    from find_value_skip [OF False c] Cons.IH [OF r] False show ?thesis
      by (simp del: find_value_after_label.simps)
  qed
qed

theorem find_value_after_label_first_plausible_witness:
  "captures_first_group ''Shipper: N/A'' False shipper_name_re
   \<and> captures_first_group ''Shipper: N/A'' False ship_from_re
   \<and> find_value_after_label ''Shipper: N/A'' [shipper_name_re, ship_from_re] False = Inr None
   \<and> captures_first_group (''Shipper: N/A'' @ [CHR 0x0A] @ ''Ship From:  ABC Corp '') False shipper_name_re
   \<and> captures_first_group (''Shipper: N/A'' @ [CHR 0x0A] @ ''Ship From:  ABC Corp '') False ship_from_re
   \<and> label_value (''Shipper: N/A'' @ [CHR 0x0A] @ ''Ship From:  ABC Corp '') False shipper_name_re = Some ''N/A''
   \<and> find_value_after_label (''Shipper: N/A'' @ [CHR 0x0A] @ ''Ship From:  ABC Corp '')
         [shipper_name_re, ship_from_re] False = Inr (Some ''ABC Corp'')"
proof -
  let ?t = "''Shipper: N/A'' @ [CHR 0x0A] @ ''Ship From:  ABC Corp ''"
  have s1: "re_search shipper_name_re ''Shipper: N/A'' True False
      = Some ([], ([CHR ''A'', CHR ''/'', CHR ''N'', CHR '' '', CHR '':'', CHR ''r'', CHR ''e'', CHR ''p'', CHR ''p'', CHR ''i'', CHR ''h'', CHR ''S''], [], [(1, ''N/A'')]))"
    by code_simp
  have s2: "re_search ship_from_re ''Shipper: N/A'' True False = None"
    by code_simp
  have j: "is_junk_value ''N/A''" by code_simp
  have st: "py_strip ''N/A'' = ''N/A''" by code_simp
  have c1: "captures_first_group ''Shipper: N/A'' False shipper_name_re"
    by (simp add: captures_first_group_def s1 group_def)
  have c2: "captures_first_group ''Shipper: N/A'' False ship_from_re"
    by (simp add: captures_first_group_def s2)
  have p1: "\<not> plausible ''Shipper: N/A'' False shipper_name_re"
    by (simp add: plausible_def label_value_def s1 group_def st j)
  have p2: "\<not> plausible ''Shipper: N/A'' False ship_from_re"
    by (simp add: plausible_def label_value_def s2)
  have a: "\<forall>p \<in> set [shipper_name_re, ship_from_re]. captures_first_group ''Shipper: N/A'' False p"
    using c1 c2 by simp
  have r1: "find_value_after_label ''Shipper: N/A'' [shipper_name_re, ship_from_re] False = Inr None"
    using find_value_after_label_first_plausible [OF a] p1 p2 by simp
  have v1: "label_value ?t False shipper_name_re = Some ''N/A''" by code_simp
  have v2: "label_value ?t False ship_from_re = Some ''ABC Corp''" by code_simp
  have j2: "\<not> is_junk_value ''ABC Corp''" by code_simp
  have d1: "captures_first_group ?t False shipper_name_re" by code_simp
  have d2: "captures_first_group ?t False ship_from_re" by code_simp
  have q1: "\<not> plausible ?t False shipper_name_re"
    unfolding plausible_def v1 using j by simp
  have q2: "plausible ?t False ship_from_re"
    unfolding plausible_def v2 using j2 by simp
  have b: "\<forall>p \<in> set [shipper_name_re, ship_from_re]. captures_first_group ?t False p"
    using d1 d2 by simp
  have r2: "find_value_after_label ?t [shipper_name_re, ship_from_re] False = Inr (Some ''ABC Corp'')"
    using find_value_after_label_first_plausible [OF b] q1 q2 v2 by simp
  from c1 c2 r1 d1 d2 v1 r2 show ?thesis by blast
qed

end
